theory Spec2Isabelle
  imports Main "HOL-Library.Word"
begin

section \<open>The sequence containers the adapter is instantiated with\<close>

text \<open>
  \<^verbatim>\<open>enumerate.hpp\<close> is a template over a container type; the tests instantiate it with
  \<^verbatim>\<open>std::vector<int>\<close> and \<open>std::array<int, 10>\<close>. The adapter uses five things of such a
  container: \<^verbatim>\<open>begin()\<close>, \<^verbatim>\<open>end()\<close>, \<^verbatim>\<open>size()\<close>, and of its iterator \<^verbatim>\<open>++\<close>, \<^verbatim>\<open>==\<close> and
  \<^verbatim>\<open>*\<close>. They are modelled here as the C++ standard describes them.

  Containers live in a store, addressed by where they are; the adapter only ever holds a
  reference (an address), so a write through an element reference is seen by everyone who
  reads the container afterwards. A container iterator is a pointer into a container: the
  container's address and an offset. Incrementing or dereferencing an iterator that does
  not point at an element, and using a container that is not there, is undefined behaviour
  in C++; in the model these return \<open>None\<close>.

  \<^verbatim>\<open>size_t\<close> is a 64-bit unsigned integer, with the wrap-around of \<^verbatim>\<open>++\<close>.
\<close>

type_synonym size_t = "64 word"

type_synonym addr = nat

type_synonym 'a store = "addr \<rightharpoonup> 'a list"

record container_iterator =
  cont :: addr
  pos :: nat

definition container_begin :: "'a store \<Rightarrow> addr \<Rightarrow> container_iterator option" where
  "container_begin s a =
     (case s a of None \<Rightarrow> None | Some xs \<Rightarrow> Some \<lparr>cont = a, pos = 0\<rparr>)"

definition container_end :: "'a store \<Rightarrow> addr \<Rightarrow> container_iterator option" where
  "container_end s a =
     (case s a of None \<Rightarrow> None | Some xs \<Rightarrow> Some \<lparr>cont = a, pos = length xs\<rparr>)"

definition container_size :: "'a store \<Rightarrow> addr \<Rightarrow> size_t option" where
  "container_size s a =
     (case s a of None \<Rightarrow> None | Some xs \<Rightarrow> Some (of_nat (length xs)))"

text \<open>An iterator is dereferenceable when it points at an element of a live container.\<close>

definition dereferenceable :: "'a store \<Rightarrow> container_iterator \<Rightarrow> bool" where
  "dereferenceable s it =
     (case s (cont it) of None \<Rightarrow> False | Some xs \<Rightarrow> pos it < length xs)"

text \<open>\<^verbatim>\<open>++it\<close> on a container iterator.\<close>

definition container_iterator_inc ::
  "'a store \<Rightarrow> container_iterator \<Rightarrow> container_iterator option" where
  "container_iterator_inc s it =
     (if dereferenceable s it then Some (it\<lparr>pos := Suc (pos it)\<rparr>) else None)"

text \<open>
  \<^verbatim>\<open>*it\<close> on a container iterator gives a reference to the element, which is the pointer
  itself; \<open>load\<close> reads through a reference and \<open>store_through\<close> assigns through it.
\<close>

definition container_iterator_deref ::
  "'a store \<Rightarrow> container_iterator \<Rightarrow> container_iterator option" where
  "container_iterator_deref s it = (if dereferenceable s it then Some it else None)"

definition load :: "'a store \<Rightarrow> container_iterator \<Rightarrow> 'a option" where
  "load s r =
     (case s (cont r) of
        None \<Rightarrow> None
      | Some xs \<Rightarrow> if pos r < length xs then Some (xs ! pos r) else None)"

definition store_through :: "'a store \<Rightarrow> container_iterator \<Rightarrow> 'a \<Rightarrow> 'a store option" where
  "store_through s r v =
     (case s (cont r) of
        None \<Rightarrow> None
      | Some xs \<Rightarrow> if pos r < length xs then Some (s(cont r \<mapsto> xs[pos r := v])) else None)"

section \<open>EnumeratedIteratorResult\<close>

text \<open>
  \<^verbatim>\<open>struct EnumeratedIteratorResult { index_type index; IteratorType value; }\<close> with its
  constructor. The field \<^verbatim>\<open>value\<close> is called \<open>value_it\<close> here.
\<close>

record EnumeratedIteratorResult =
  index :: size_t
  value_it :: container_iterator

definition EnumeratedIteratorResult_ctor ::
  "size_t \<Rightarrow> container_iterator \<Rightarrow> EnumeratedIteratorResult" where
  "EnumeratedIteratorResult_ctor i v = \<lparr>index = i, value_it = v\<rparr>"

text \<open>\<^verbatim>\<open>std::tuple_size<EnumeratedIteratorResult<...>>::value\<close>.\<close>

definition tuple_size :: nat where
  "tuple_size = 2"

text \<open>
  \<^verbatim>\<open>get<Index>(enumeratedValue)\<close>: \<^verbatim>\<open>get<0>\<close> returns the field \<^verbatim>\<open>index\<close>, \<^verbatim>\<open>get<1>\<close> returns
  \<^verbatim>\<open>*enumeratedValue.value\<close>, a reference to the element in the container. The two overloads
  (on a non-const and on a const result) have the same body; they differ in the
  const-qualification of the reference they return, which the compiler checks.
\<close>

definition get_0 :: "EnumeratedIteratorResult \<Rightarrow> size_t" where
  "get_0 enumeratedValue = index enumeratedValue"

definition get_1 :: "'a store \<Rightarrow> EnumeratedIteratorResult \<Rightarrow> container_iterator option" where
  "get_1 s enumeratedValue = container_iterator_deref s (value_it enumeratedValue)"

section \<open>Enumerator::Iterator\<close>

text \<open>
  The members \<^verbatim>\<open>_enumeratedValue\<close>, \<^verbatim>\<open>_containerIt\<close> and \<^verbatim>\<open>_index\<close>; the last is called
  \<open>Iterator_index\<close> here, to keep it apart from the field of the result.
\<close>

record Iterator =
  enumeratedValue :: EnumeratedIteratorResult
  containerIt :: container_iterator
  Iterator_index :: size_t

definition Iterator_ctor :: "container_iterator \<Rightarrow> size_t \<Rightarrow> Iterator" where
  "Iterator_ctor cIt i =
     \<lparr>enumeratedValue = EnumeratedIteratorResult_ctor i cIt,
      containerIt = cIt,
      Iterator_index = i\<rparr>"

text \<open>
  \<^verbatim>\<open>operator++()\<close>: the four assignments of the source, in its order, on the iterator
  object; the result is the object after the call.
\<close>

definition Iterator_inc :: "'a store \<Rightarrow> Iterator \<Rightarrow> Iterator option" where
  "Iterator_inc s it =
     (case container_iterator_inc s (containerIt it) of
        None \<Rightarrow> None
      | Some c \<Rightarrow>
          (let it1 = it\<lparr>containerIt := c\<rparr>;
               it2 = it1\<lparr>Iterator_index := Iterator_index it1 + 1\<rparr>;
               it3 = it2\<lparr>enumeratedValue := (enumeratedValue it2)\<lparr>index := Iterator_index it2\<rparr>\<rparr>;
               it4 = it3\<lparr>enumeratedValue := (enumeratedValue it3)\<lparr>value_it := containerIt it3\<rparr>\<rparr>
           in Some it4))"

text \<open>\<^verbatim>\<open>operator++(int)\<close>: the copy made before the increment, and the object after it.\<close>

definition Iterator_post_inc :: "'a store \<Rightarrow> Iterator \<Rightarrow> (Iterator \<times> Iterator) option" where
  "Iterator_post_inc s it =
     (let tmp = it in
      case Iterator_inc s it of None \<Rightarrow> None | Some it' \<Rightarrow> Some (tmp, it'))"

definition Iterator_eq :: "Iterator \<Rightarrow> Iterator \<Rightarrow> bool" where
  "Iterator_eq it other = (containerIt it = containerIt other)"

definition Iterator_neq :: "Iterator \<Rightarrow> Iterator \<Rightarrow> bool" where
  "Iterator_neq it other = (\<not> Iterator_eq it other)"

text \<open>
  \<^verbatim>\<open>operator*()\<close> is not a const member, so it is given the iterator object and returns,
  with the result it yields, the object after the call.
\<close>

definition Iterator_deref :: "Iterator \<Rightarrow> EnumeratedIteratorResult \<times> Iterator" where
  "Iterator_deref it = (enumeratedValue it, it)"

section \<open>Enumerator and the two entry functions\<close>

record Enumerator =
  container :: addr

definition Enumerator_ctor :: "addr \<Rightarrow> Enumerator" where
  "Enumerator_ctor c = \<lparr>container = c\<rparr>"

definition Enumerator_begin :: "'a store \<Rightarrow> Enumerator \<Rightarrow> Iterator option" where
  "Enumerator_begin s e =
     (case container_begin s (container e) of
        None \<Rightarrow> None
      | Some b \<Rightarrow> Some (Iterator_ctor b 0))"

definition Enumerator_end :: "'a store \<Rightarrow> Enumerator \<Rightarrow> Iterator option" where
  "Enumerator_end s e =
     (case container_end s (container e) of
        None \<Rightarrow> None
      | Some en \<Rightarrow>
          (case container_size s (container e) of
             None \<Rightarrow> None
           | Some n \<Rightarrow> Some (Iterator_ctor en n)))"

text \<open>
  \<^verbatim>\<open>enumerate(Container&)\<close> and \<^verbatim>\<open>enumerate(const Container&)\<close>. Both construct an
  \<^verbatim>\<open>Enumerator\<close> on the container passed by reference; they differ in the template
  arguments (\<^verbatim>\<open>const\<close> value type and \<^verbatim>\<open>const_iterator\<close> for the second), which decide what
  the compiler lets the caller do with an element reference.
\<close>

definition enumerate_mutable :: "addr \<Rightarrow> Enumerator" where
  "enumerate_mutable c = Enumerator_ctor c"

definition enumerate_const :: "addr \<Rightarrow> Enumerator" where
  "enumerate_const c = Enumerator_ctor c"

section \<open>The range-based for loop over an Enumerator\<close>

text \<open>
  The loops of the tests, \<^verbatim>\<open>for (auto& [index, value] : enumerate(c)) body\<close>, are by the
  language \<^verbatim>\<open>for (; it != end; ++it) { auto& [index, value] = *it; body }\<close> with \<^verbatim>\<open>it\<close> and
  \<^verbatim>\<open>end\<close> taken once from \<^verbatim>\<open>begin()\<close> and \<^verbatim>\<open>end()\<close>. The structured binding makes \<^verbatim>\<open>index\<close>
  the result of \<^verbatim>\<open>get<0>\<close> and \<^verbatim>\<open>value\<close> the reference from \<^verbatim>\<open>get<1>\<close>. A body reads both and
  may assign to \<^verbatim>\<open>value\<close>: it is a function from what it reads to what it assigns, if
  anything. The loop returns the store it leaves and the pairs it has seen, in order.
\<close>

function for_loop ::
  "(size_t \<Rightarrow> 'a \<Rightarrow> 'a option) \<Rightarrow> 'a store \<Rightarrow> Iterator \<Rightarrow> Iterator \<Rightarrow> (size_t \<times> 'a) list
     \<Rightarrow> ('a store \<times> (size_t \<times> 'a) list) option" where
  "for_loop body s it en seen =
     (if Iterator_neq it en then
        (case get_1 s (fst (Iterator_deref it)) of
           None \<Rightarrow> None
         | Some r \<Rightarrow>
             (case load s r of
                None \<Rightarrow> None
              | Some v \<Rightarrow>
                  (let i = get_0 (fst (Iterator_deref it)) in
                   case (case body i v of None \<Rightarrow> Some s | Some w \<Rightarrow> store_through s r w) of
                     None \<Rightarrow> None
                   | Some s' \<Rightarrow>
                       (case Iterator_inc s' (snd (Iterator_deref it)) of
                          None \<Rightarrow> None
                        | Some it' \<Rightarrow> for_loop body s' it' en (seen @ [(i, v)])))))
      else Some (s, seen))"
  by pat_completeness auto

text \<open>
  The loop ends: each round moves the container iterator one element closer to the end of
  its container, and an assignment through a reference changes no container's length.
\<close>

definition remaining :: "'a store \<Rightarrow> Iterator \<Rightarrow> nat" where
  "remaining s it =
     (case s (cont (containerIt it)) of
        None \<Rightarrow> 0
      | Some xs \<Rightarrow> length xs - pos (containerIt it))"

text \<open>
  The whole statement \<^verbatim>\<open>for (... : e) body\<close>: \<^verbatim>\<open>begin()\<close> and \<^verbatim>\<open>end()\<close> are called once,
  then the loop runs.
\<close>

definition range_for ::
  "(size_t \<Rightarrow> 'a \<Rightarrow> 'a option) \<Rightarrow> 'a store \<Rightarrow> Enumerator
     \<Rightarrow> ('a store \<times> (size_t \<times> 'a) list) option" where
  "range_for body s e =
     (case Enumerator_begin s e of
        None \<Rightarrow> None
      | Some b \<Rightarrow>
          (case Enumerator_end s e of
             None \<Rightarrow> None
           | Some en \<Rightarrow> for_loop body s b en []))"

text \<open>What a caller reads off the pairs it has seen.\<close>

definition positions :: "(size_t \<times> 'a) list \<Rightarrow> nat list" where
  "positions seen = map (\<lambda>p. unat (fst p)) seen"

definition elements :: "(size_t \<times> 'a) list \<Rightarrow> 'a list" where
  "elements seen = map snd seen"

text \<open>
  What a caller observes of one result: the position, and the element read through the
  reference (\<open>None\<close> where the reference cannot be formed).
\<close>

definition observe :: "'a store \<Rightarrow> EnumeratedIteratorResult \<Rightarrow> size_t \<times> 'a option" where
  "observe s r = (get_0 r, case get_1 s r of None \<Rightarrow> None | Some p \<Rightarrow> load s p)"

text \<open>The embedded result is in sync with the iterator that holds it.\<close>

definition in_sync :: "Iterator \<Rightarrow> bool" where
  "in_sync it \<longleftrightarrow>
     index (enumeratedValue it) = Iterator_index it \<and>
     value_it (enumeratedValue it) = containerIt it"

text \<open>
  Two notions for stating what the loop computes. \<open>cursor_at a k\<close> is the iterator that
  \<^verbatim>\<open>begin()\<close> of an \<^verbatim>\<open>Enumerator\<close> on the container at \<open>a\<close> becomes after \<open>k\<close> increments.
  \<open>assigned body xs j\<close> is the element at \<open>j\<close> after the body has run on it: what the body
  assigned, or the element as it was.
\<close>

definition cursor_at :: "addr \<Rightarrow> nat \<Rightarrow> Iterator" where
  "cursor_at a k = Iterator_ctor \<lparr>cont = a, pos = k\<rparr> (of_nat k)"

definition assigned :: "(size_t \<Rightarrow> 'a \<Rightarrow> 'a option) \<Rightarrow> 'a list \<Rightarrow> nat \<Rightarrow> 'a" where
  "assigned body xs j = (case body (of_nat j) (xs ! j) of None \<Rightarrow> xs ! j | Some w \<Rightarrow> w)"

section \<open>The embedded result as an object\<close>

text \<open>
  \<^verbatim>\<open>operator*\<close> returns a reference to the member \<^verbatim>\<open>_enumeratedValue\<close>, and \<^verbatim>\<open>operator++\<close>
  assigns to the two fields of that member. Which object a reference refers to, and
  whether an operation creates an object, cannot be read off the values above: the record
  that \<open>Iterator_inc\<close> computes is the same whether the result in it was assigned to or
  built anew. So the functions of \<^verbatim>\<open>Iterator\<close> are translated a second time, with the results
  as objects in a store of their own: a list of cells, the address of a result being its
  place in the list. Constructing an \<^verbatim>\<open>EnumeratedIteratorResult\<close> adds a cell, assigning to a
  field of one updates its cell, and nothing removes a cell. An iterator object holds the
  address of the cell that is its member \<^verbatim>\<open>_enumeratedValue\<close>; the address is fixed when the
  iterator is constructed, as the place of a member in its object is.
\<close>

type_synonym results = "EnumeratedIteratorResult list"

definition result_at :: "results \<Rightarrow> addr \<Rightarrow> EnumeratedIteratorResult option" where
  "result_at rs p = (if p < length rs then Some (rs ! p) else None)"

text \<open>The constructor of \<^verbatim>\<open>EnumeratedIteratorResult\<close>, creating the object.\<close>

definition new_result :: "results \<Rightarrow> size_t \<Rightarrow> container_iterator \<Rightarrow> addr \<times> results" where
  "new_result rs i v = (length rs, rs @ [EnumeratedIteratorResult_ctor i v])"

record Iterator_object =
  enumeratedValue_at :: addr
  object_containerIt :: container_iterator
  object_index :: size_t

text \<open>
  The constructor of \<^verbatim>\<open>Iterator\<close>: its initialiser \<^verbatim>\<open>_enumeratedValue(index, containerIt)\<close>
  constructs the one result embedded in the iterator.
\<close>

definition Iterator_object_ctor ::
  "results \<Rightarrow> container_iterator \<Rightarrow> size_t \<Rightarrow> Iterator_object \<times> results" where
  "Iterator_object_ctor rs cIt i =
     (case new_result rs i cIt of
        (p, rs') \<Rightarrow> (\<lparr>enumeratedValue_at = p, object_containerIt = cIt, object_index = i\<rparr>, rs'))"

text \<open>
  \<^verbatim>\<open>operator++()\<close>: \<^verbatim>\<open>++_containerIt; ++_index;\<close> on the iterator's own members, then
  \<^verbatim>\<open>_enumeratedValue.index = _index; _enumeratedValue.value = _containerIt;\<close> on the cell
  of the embedded result. No constructor is called. An iterator whose result is not in
  the store is not a live object; using it is undefined.
\<close>

definition Iterator_object_inc ::
  "'a store \<Rightarrow> results \<Rightarrow> Iterator_object \<Rightarrow> (Iterator_object \<times> results) option" where
  "Iterator_object_inc s rs it =
     (case container_iterator_inc s (object_containerIt it) of
        None \<Rightarrow> None
      | Some c \<Rightarrow>
          (let it1 = it\<lparr>object_containerIt := c\<rparr>;
               it2 = it1\<lparr>object_index := object_index it1 + 1\<rparr>;
               p = enumeratedValue_at it2
           in if p < length rs then
                (let rs1 = rs[p := (rs ! p)\<lparr>index := object_index it2\<rparr>];
                     rs2 = rs1[p := (rs1 ! p)\<lparr>value_it := object_containerIt it2\<rparr>]
                 in Some (it2, rs2))
              else None))"

text \<open>
  The copy constructor the compiler supplies, used by \<^verbatim>\<open>Iterator tmp = *this;\<close>: the copy
  has a result of its own, constructed from the one copied.
\<close>

definition Iterator_object_copy ::
  "results \<Rightarrow> Iterator_object \<Rightarrow> (Iterator_object \<times> results) option" where
  "Iterator_object_copy rs it =
     (case result_at rs (enumeratedValue_at it) of
        None \<Rightarrow> None
      | Some r \<Rightarrow> Some (it\<lparr>enumeratedValue_at := length rs\<rparr>, rs @ [r]))"

text \<open>
  \<^verbatim>\<open>operator++(int)\<close>: the copy \<^verbatim>\<open>tmp\<close> it returns, and the object after the call. (Where a
  compiler does not construct \<^verbatim>\<open>tmp\<close> in the caller's object, the caller receives a further
  copy of it, with the same content.)
\<close>

definition Iterator_object_post_inc ::
  "'a store \<Rightarrow> results \<Rightarrow> Iterator_object
     \<Rightarrow> (Iterator_object \<times> Iterator_object \<times> results) option" where
  "Iterator_object_post_inc s rs it =
     (case Iterator_object_copy rs it of
        None \<Rightarrow> None
      | Some (tmp, rs1) \<Rightarrow>
          (case Iterator_object_inc s rs1 it of
             None \<Rightarrow> None
           | Some (it', rs2) \<Rightarrow> Some (tmp, it', rs2)))"

text \<open>\<^verbatim>\<open>operator*()\<close>: the reference to \<^verbatim>\<open>_enumeratedValue\<close>, and the object after the call.\<close>

definition Iterator_object_deref :: "Iterator_object \<Rightarrow> addr \<times> Iterator_object" where
  "Iterator_object_deref it = (enumeratedValue_at it, it)"

text \<open>\<^verbatim>\<open>begin()\<close> and \<^verbatim>\<open>end()\<close>, each constructing an iterator.\<close>

definition Enumerator_begin_object ::
  "'a store \<Rightarrow> results \<Rightarrow> Enumerator \<Rightarrow> (Iterator_object \<times> results) option" where
  "Enumerator_begin_object s rs e =
     (case container_begin s (container e) of
        None \<Rightarrow> None
      | Some b \<Rightarrow> Some (Iterator_object_ctor rs b 0))"

definition Enumerator_end_object ::
  "'a store \<Rightarrow> results \<Rightarrow> Enumerator \<Rightarrow> (Iterator_object \<times> results) option" where
  "Enumerator_end_object s rs e =
     (case container_end s (container e) of
        None \<Rightarrow> None
      | Some en \<Rightarrow>
          (case container_size s (container e) of
             None \<Rightarrow> None
           | Some n \<Rightarrow> Some (Iterator_object_ctor rs en n)))"

text \<open>\<open>n\<close> calls of \<^verbatim>\<open>operator++()\<close> in a row, as a loop makes them.\<close>

primrec Iterator_object_inc_times ::
  "nat \<Rightarrow> 'a store \<Rightarrow> results \<Rightarrow> Iterator_object \<Rightarrow> (Iterator_object \<times> results) option" where
  "Iterator_object_inc_times 0 s rs it = Some (it, rs)"
| "Iterator_object_inc_times (Suc n) s rs it =
     (case Iterator_object_inc s rs it of
        None \<Rightarrow> None
      | Some (it', rs') \<Rightarrow> Iterator_object_inc_times n s rs' it')"

text \<open>
  The value of an iterator object: the iterator of the first translation that has the
  content of the object's result cell as its embedded result.
\<close>

definition Iterator_of :: "results \<Rightarrow> Iterator_object \<Rightarrow> Iterator option" where
  "Iterator_of rs it =
     (case result_at rs (enumeratedValue_at it) of
        None \<Rightarrow> None
      | Some r \<Rightarrow>
          Some \<lparr>enumeratedValue = r, containerIt = object_containerIt it,
                Iterator_index = object_index it\<rparr>)"

text \<open>
  For stating examples: the iterator object with its result at \<open>p\<close> that \<^verbatim>\<open>begin()\<close> on the
  container at \<open>a\<close> becomes after \<open>k\<close> increments.
\<close>

definition object_at :: "addr \<Rightarrow> addr \<Rightarrow> nat \<Rightarrow> Iterator_object" where
  "object_at p a k =
     \<lparr>enumeratedValue_at = p, object_containerIt = \<lparr>cont = a, pos = k\<rparr>,
      object_index = of_nat k\<rparr>"

section \<open>Termination of the loop\<close>

lemma store_through_length:
  "store_through s r w = Some s' \<Longrightarrow> map_option length (s' a) = map_option length (s a)"
  by (auto simp: store_through_def split: option.splits if_splits)

lemma Iterator_inc_Some:
  "Iterator_inc s it = Some it' \<Longrightarrow>
     dereferenceable s (containerIt it) \<and>
     containerIt it' = (containerIt it)\<lparr>pos := Suc (pos (containerIt it))\<rparr>"
  by (auto simp: Iterator_inc_def container_iterator_inc_def Let_def
           split: option.splits if_splits)

lemma remaining_inc: "Iterator_inc s it = Some it' \<Longrightarrow> remaining s it' < remaining s it"
  by (auto simp: remaining_def dereferenceable_def dest!: Iterator_inc_Some
           split: option.splits)

lemma remaining_store_through:
  "store_through s r w = Some s' \<Longrightarrow> remaining s' it = remaining s it"
  using store_through_length [of s r w s' "cont (containerIt it)"]
  by (auto simp: remaining_def split: option.splits)

termination for_loop
proof (relation "measure (\<lambda>(body, s, it, en, seen). remaining s it)")
  show "wf (measure (\<lambda>(body, s, it, en, seen). remaining s it))"
    by simp
next
  fix body :: "size_t \<Rightarrow> 'a \<Rightarrow> 'a option"
    and s s' :: "'a store" and it en it' :: Iterator and seen :: "(size_t \<times> 'a) list"
    and r v i
  assume upd: "(case body i v of None \<Rightarrow> Some s | Some w \<Rightarrow> store_through s r w) = Some s'"
    and inc: "Iterator_inc s' (snd (Iterator_deref it)) = Some it'"
  from upd have "remaining s' it = remaining s it"
    by (auto split: option.splits dest: remaining_store_through)
  moreover from inc have "remaining s' it' < remaining s' it"
    by (simp add: Iterator_deref_def remaining_inc)
  ultimately show "((body, s', it', en, seen @ [(i, v)]), (body, s, it, en, seen))
      \<in> measure (\<lambda>(body, s, it, en, seen). remaining s it)"
    by simp
qed

declare for_loop.simps [simp del]

section \<open>The loop in closed form\<close>

lemma Iterator_inc_cursor_at:
  "s a = Some xs \<Longrightarrow> k < length xs \<Longrightarrow> Iterator_inc s (cursor_at a k) = Some (cursor_at a (Suc k))"
  by (simp add: Iterator_inc_def cursor_at_def Iterator_ctor_def container_iterator_inc_def
      dereferenceable_def EnumeratedIteratorResult_ctor_def Let_def)

lemma for_loop_done:
  "containerIt it = containerIt en \<Longrightarrow> for_loop body s it en seen = Some (s, seen)"
  by (simp add: for_loop.simps Iterator_neq_def Iterator_eq_def)

lemma for_loop_step:
  assumes "s a = Some xs" "k < length xs" "containerIt en = \<lparr>cont = a, pos = length xs\<rparr>"
  shows "for_loop body s (cursor_at a k) en seen =
     for_loop body (s(a \<mapsto> xs[k := assigned body xs k])) (cursor_at a (Suc k)) en
       (seen @ [(of_nat k, xs ! k)])"
proof -
  let ?s' = "s(a \<mapsto> xs[k := assigned body xs k])"
  have neq: "Iterator_neq (cursor_at a k) en"
    using assms by (simp add: Iterator_neq_def Iterator_eq_def cursor_at_def Iterator_ctor_def)
  have g1: "get_1 s (fst (Iterator_deref (cursor_at a k))) = Some \<lparr>cont = a, pos = k\<rparr>"
    using assms by (simp add: get_1_def Iterator_deref_def cursor_at_def Iterator_ctor_def
        EnumeratedIteratorResult_ctor_def container_iterator_deref_def dereferenceable_def)
  have g0: "get_0 (fst (Iterator_deref (cursor_at a k))) = of_nat k"
    by (simp add: get_0_def Iterator_deref_def cursor_at_def Iterator_ctor_def
        EnumeratedIteratorResult_ctor_def)
  have ld: "load s \<lparr>cont = a, pos = k\<rparr> = Some (xs ! k)"
    using assms by (simp add: load_def)
  have upd: "(case body (of_nat k) (xs ! k) of None \<Rightarrow> Some s
              | Some w \<Rightarrow> store_through s \<lparr>cont = a, pos = k\<rparr> w) = Some ?s'"
  proof (cases "body (of_nat k) (xs ! k)")
    case None
    then have "xs[k := assigned body xs k] = xs" by (simp add: assigned_def)
    with None assms(1) show ?thesis by (simp add: fun_upd_idem)
  next
    case (Some w)
    with assms show ?thesis by (simp add: store_through_def assigned_def)
  qed
  have inc: "Iterator_inc ?s' (snd (Iterator_deref (cursor_at a k))) = Some (cursor_at a (Suc k))"
    using assms(2) by (simp add: Iterator_deref_def Iterator_inc_cursor_at)
  show ?thesis
    by (subst for_loop.simps) (simp add: neq g1 g0 ld upd inc)
qed

lemma for_loop_from:
  assumes en: "containerIt en = \<lparr>cont = a, pos = n\<rparr>"
  shows "s a = Some xs \<Longrightarrow> length xs = n \<Longrightarrow> k \<le> n \<Longrightarrow>
     for_loop body s (cursor_at a k) en seen =
       Some (s(a \<mapsto> take k xs @ map (assigned body xs) [k..<n]),
             seen @ map (\<lambda>j. (of_nat j, xs ! j)) [k..<n])"
proof (induction "n - k" arbitrary: k xs s seen)
  case 0
  then have k: "k = n" by simp
  have "for_loop body s (cursor_at a k) en seen = Some (s, seen)"
    using en by (intro for_loop_done) (simp add: k cursor_at_def Iterator_ctor_def)
  with 0 k show ?case by (simp add: fun_upd_idem)
next
  case (Suc m)
  then have k: "k < length xs" by simp
  let ?xs' = "xs[k := assigned body xs k]"
  let ?s' = "s(a \<mapsto> ?xs')"
  have step: "for_loop body s (cursor_at a k) en seen =
      for_loop body ?s' (cursor_at a (Suc k)) en (seen @ [(of_nat k, xs ! k)])"
    using Suc.prems k en by (intro for_loop_step) simp_all
  have IH: "for_loop body ?s' (cursor_at a (Suc k)) en (seen @ [(of_nat k, xs ! k)]) =
      Some (?s'(a \<mapsto> take (Suc k) ?xs' @ map (assigned body ?xs') [Suc k..<n]),
            (seen @ [(of_nat k, xs ! k)]) @ map (\<lambda>j. (of_nat j, ?xs' ! j)) [Suc k..<n])"
    using Suc.hyps(2) Suc.prems k by (intro Suc.hyps(1)) simp_all
  have later: "assigned body ?xs' j = assigned body xs j \<and> ?xs' ! j = xs ! j"
    if "j \<in> set [Suc k..<n]" for j
  proof -
    from that have "j \<noteq> k" by simp
    then have "?xs' ! j = xs ! j" by simp
    then show ?thesis by (simp add: assigned_def split: option.splits)
  qed
  have m1: "map (assigned body ?xs') [Suc k..<n] = map (assigned body xs) [Suc k..<n]"
    using later by (intro map_cong) simp_all
  have m2: "map (\<lambda>j. (of_nat j :: size_t, ?xs' ! j)) [Suc k..<n]
      = map (\<lambda>j. (of_nat j, xs ! j)) [Suc k..<n]"
    using later by (intro map_cong) simp_all
  have tk: "take (Suc k) ?xs' = take k xs @ [assigned body xs k]"
    using k by (simp add: take_Suc_conv_app_nth)
  have up: "[k..<n] = k # [Suc k..<n]"
    using k Suc.prems by (simp add: upt_conv_Cons)
  show ?case
    unfolding step IH m1 m2 tk up by simp
qed


lemma Enumerator_begin_bound:
  "s a = Some xs \<Longrightarrow> container e = a \<Longrightarrow> Enumerator_begin s e = Some (cursor_at a 0)"
  by (simp add: Enumerator_begin_def container_begin_def cursor_at_def)

lemma Enumerator_end_bound:
  "s a = Some xs \<Longrightarrow> container e = a \<Longrightarrow>
     Enumerator_end s e = Some (cursor_at a (length xs))"
  by (simp add: Enumerator_end_def container_end_def container_size_def cursor_at_def)

lemma range_for_bound:
  assumes "s a = Some xs" and "container e = a"
  shows "range_for body s e =
     Some (s(a \<mapsto> map (assigned body xs) [0..<length xs]),
           map (\<lambda>j. (of_nat j, xs ! j)) [0..<length xs])"
proof -
  have "containerIt (cursor_at a (length xs)) = \<lparr>cont = a, pos = length xs\<rparr>"
    by (simp add: cursor_at_def Iterator_ctor_def)
  then have "for_loop body s (cursor_at a 0) (cursor_at a (length xs)) [] =
      Some (s(a \<mapsto> take 0 xs @ map (assigned body xs) [0..<length xs]),
            [] @ map (\<lambda>j. (of_nat j, xs ! j)) [0..<length xs])"
    using assms(1) by (intro for_loop_from) simp_all
  with assms show ?thesis
    by (simp add: range_for_def Enumerator_begin_bound Enumerator_end_bound)
qed

lemma positions_upt:
  "n < 2 ^ 64 \<Longrightarrow> positions (map (\<lambda>j. (of_nat j :: size_t, f j)) [0..<n]) = [0..<n]"
proof -
  assume n: "n < 2 ^ 64"
  have "unat (of_nat j :: size_t) = j" if "j \<in> set [0..<n]" for j
    using that n by (simp add: unat_of_nat)
  then have "map (\<lambda>j. unat (of_nat j :: size_t)) [0..<n] = map (\<lambda>j. j) [0..<n]"
    by (intro map_cong) simp_all
  then show ?thesis by (simp add: positions_def comp_def)
qed

lemma elements_upt: "elements (map (\<lambda>j. (g j, xs ! j)) [0..<length xs]) = xs"
  by (simp add: elements_def comp_def map_nth)

lemma assigned_None: "assigned (\<lambda>i v. None) xs j = xs ! j"
  by (simp add: assigned_def)

lemma assigned_Some: "assigned (\<lambda>i v. Some (f i)) xs j = f (of_nat j)"
  by (simp add: assigned_def)

lemma range_for_read:
  assumes "s a = Some xs" and "container e = a"
  shows "range_for (\<lambda>i v. None) s e = Some (s, map (\<lambda>j. (of_nat j, xs ! j)) [0..<length xs])"
proof -
  have "map (assigned (\<lambda>i v. None) xs) [0..<length xs] = xs"
    by (simp add: assigned_None [abs_def] map_nth)
  with assms show ?thesis
    by (simp add: range_for_bound [where xs = xs and a = a] fun_upd_idem)
qed

lemma range_for_write:
  assumes "s a = Some xs" and "container e = a"
  shows "range_for (\<lambda>i v. Some (f i)) s e =
     Some (s(a \<mapsto> map (\<lambda>j. f (of_nat j)) [0..<length xs]),
           map (\<lambda>j. (of_nat j, xs ! j)) [0..<length xs])"
  using assms by (simp add: range_for_bound [where xs = xs and a = a] assigned_Some [abs_def])

section \<open>Enumerating a container\<close>

text \<open>
  The loop run on a container of three elements, by unfolding the definitions alone: a body
  that assigns nothing, and a body that adds the position to the element.
\<close>

lemmas enumerate_defs =
  range_for_def enumerate_const_def enumerate_mutable_def Enumerator_ctor_def
  Enumerator_begin_def Enumerator_end_def container_begin_def container_end_def
  container_size_def for_loop.simps Iterator_neq_def Iterator_eq_def Iterator_ctor_def
  Iterator_deref_def Iterator_inc_def container_iterator_inc_def container_iterator_deref_def
  dereferenceable_def get_0_def get_1_def load_def store_through_def
  EnumeratedIteratorResult_ctor_def Let_def

lemma range_for_three_read:
  "range_for (\<lambda>i v. None) [0 \<mapsto> [7, 8, 9 :: int]] (enumerate_const 0) =
     Some ([0 \<mapsto> [7, 8, 9]], [(0, 7), (1, 8), (2, 9)])"
  by (simp add: enumerate_defs)

lemma range_for_three_write:
  "range_for (\<lambda>i v. Some (v + int (unat i))) [0 \<mapsto> [7, 8, 9 :: int]] (enumerate_mutable 0) =
     Some ([0 \<mapsto> [7, 9, 11]], [(0, 7), (1, 8), (2, 9)])"
  by (simp add: enumerate_defs)

text \<open>
  There is no container at address 1, and the iterator at the end cannot be incremented
  or dereferenced.
\<close>

lemma range_for_no_container:
  "range_for (\<lambda>i v. None) [0 \<mapsto> [7, 8, 9 :: int]] (enumerate_const 1) = None"
  by (simp add: enumerate_defs)

lemma Iterator_inc_at_end:
  "Iterator_inc [0 \<mapsto> [7, 8, 9 :: int]] (cursor_at 0 3) = None \<and>
   get_1 [0 \<mapsto> [7, 8, 9 :: int]] (fst (Iterator_deref (cursor_at 0 3))) = None"
  by (simp add: enumerate_defs cursor_at_def)

lemma container_enumerate_const: "container (enumerate_const a) = a"
  by (simp add: enumerate_const_def Enumerator_ctor_def)

lemma container_enumerate_mutable: "container (enumerate_mutable a) = a"
  by (simp add: enumerate_mutable_def Enumerator_ctor_def)

lemma assigned_index_list:
  "map (\<lambda>j. ucast (of_nat j :: size_t) :: 32 word) [0..<10] = [0, 1, 2, 3, 4, 5, 6, 7, 8, 9]"
  by (simp add: upt_rec)

lemma seen_index_list:
  "map (\<lambda>j. (of_nat j :: size_t, [0, 1, 2, 3, 4, 5, 6, 7, 8, 9 :: 32 word] ! j)) [0..<10] =
     [(0, 0), (1, 1), (2, 2), (3, 3), (4, 4), (5, 5), (6, 6), (7, 7), (8, 8), (9, 9)]"
  by (simp add: upt_rec)

text \<open>
  C1. A read-only enumeration (a body that assigns nothing, on the \<^verbatim>\<open>Enumerator\<close> of
  \<^verbatim>\<open>enumerate(const Container&)\<close>, and just as well of \<^verbatim>\<open>enumerate(Container&)\<close>) of a
  container of \<open>N\<close> elements, run from \<^verbatim>\<open>begin()\<close> until the iterator equals \<^verbatim>\<open>end()\<close>,
  returns, and the positions it has yielded are \<open>0, 1, ..., N - 1\<close> in this order. A
  container's size is a \<^verbatim>\<open>size_t\<close>, so \<open>N < 2 ^ 64\<close>.
\<close>

theorem enumerate_const_positions:
  assumes "s a = Some xs" and "length xs < 2 ^ 64"
  shows "\<forall>e \<in> {enumerate_const a, enumerate_mutable a}.
    \<exists>seen. range_for (\<lambda>i v. None) s e = Some (s, seen) \<and> positions seen = [0..<length xs]"
proof -
  have "range_for (\<lambda>i v. None) s e = Some (s, map (\<lambda>j. (of_nat j, xs ! j)) [0..<length xs])"
    if "container e = a" for e
    using assms(1) that by (rule range_for_read)
  with assms(2) show ?thesis
    by (simp add: positions_upt container_enumerate_const container_enumerate_mutable)
qed

theorem enumerate_const_positions_witness:
  "[0 \<mapsto> [7, 8, 9 :: int]] 0 = Some [7, 8, 9] \<and> length [7, 8, 9 :: int] < 2 ^ 64 \<and>
   (\<exists>seen. range_for (\<lambda>i v. None) [0 \<mapsto> [7, 8, 9 :: int]] (enumerate_const 0)
       = Some ([0 \<mapsto> [7, 8, 9]], seen) \<and>
     positions seen = [0..<length [7, 8, 9 :: int]]) \<and>
   (\<exists>seen. range_for (\<lambda>i v. None) [0 \<mapsto> [7, 8, 9 :: int]] (enumerate_mutable 0)
       = Some ([0 \<mapsto> [7, 8, 9]], seen) \<and>
     positions seen = [0..<length [7, 8, 9 :: int]])"
  using enumerate_const_positions [of "[0 \<mapsto> [7, 8, 9 :: int]]" 0 "[7, 8, 9]"]
  by simp

text \<open>
  C9. A read-only enumeration leaves the store as it was, and the elements it yields are
  the container's elements, in order; on a container of ten elements (whatever their
  values) the positions it yields are \<open>0, ..., 9\<close>.
\<close>

theorem enumerate_const_unchanged:
  assumes "s a = Some xs"
  shows "\<forall>e \<in> {enumerate_const a, enumerate_mutable a}.
    \<exists>seen. range_for (\<lambda>i v. None) s e = Some (s, seen) \<and>
      elements seen = xs \<and>
      (length xs = 10 \<longrightarrow> positions seen = [0, 1, 2, 3, 4, 5, 6, 7, 8, 9])"
proof -
  let ?seen = "map (\<lambda>j. (of_nat j :: size_t, xs ! j)) [0..<length xs]"
  have run: "range_for (\<lambda>i v. None) s e = Some (s, ?seen)" if "container e = a" for e
    using assms that by (rule range_for_read)
  have el: "elements ?seen = xs"
    by (rule elements_upt)
  have ps: "positions ?seen = [0, 1, 2, 3, 4, 5, 6, 7, 8, 9]" if "length xs = 10"
  proof -
    have "positions ?seen = [0..<10]"
      unfolding that by (rule positions_upt) simp
    also have "[0..<10] = [0, 1, 2, 3, 4, 5, 6, 7, 8, 9 :: nat]"
      by (simp add: upt_rec)
    finally show ?thesis .
  qed
  from run el ps show ?thesis
    by (simp add: container_enumerate_const container_enumerate_mutable)
qed

theorem enumerate_const_unchanged_witness:
  "[0 \<mapsto> replicate 10 (0 :: 32 word)] 0 = Some (replicate 10 0) \<and>
   length (replicate 10 (0 :: 32 word)) = 10 \<and>
   (\<exists>seen. range_for (\<lambda>i v. None) [0 \<mapsto> replicate 10 (0 :: 32 word)] (enumerate_const 0)
       = Some ([0 \<mapsto> replicate 10 0], seen) \<and>
     elements seen = replicate 10 0 \<and>
     positions seen = [0, 1, 2, 3, 4, 5, 6, 7, 8, 9])"
  using enumerate_const_unchanged [of "[0 \<mapsto> replicate 10 (0 :: 32 word)]" 0 "replicate 10 0"]
  by simp

text \<open>
  C2. A mutable enumeration (\<^verbatim>\<open>enumerate(Container&)\<close>) whose body assigns \<open>f index\<close> to
  \<^verbatim>\<open>value\<close> returns; the positions it has yielded are \<open>0, ..., N - 1\<close>; afterwards the
  container holds \<open>f j\<close> at every index \<open>j\<close>, also when read element by element. In the
  scenario of the tests, ten \<^verbatim>\<open>int\<close> zeros with the body \<^verbatim>\<open>value = static_cast<int>(index)\<close>, a
  read-only enumeration afterwards (through either entry function) yields
  \<open>(0, 0), (1, 1), ..., (9, 9)\<close>.
\<close>

theorem enumerate_mutable_write_then_read:
  fixes s :: "'a store" and f :: "size_t \<Rightarrow> 'a" and s0 :: "32 word store"
  assumes "s a = Some xs" and "length xs < 2 ^ 64" and "s0 a0 = Some (replicate 10 0)"
  shows "(\<exists>s' seen.
      range_for (\<lambda>i v. Some (f i)) s (enumerate_mutable a) = Some (s', seen) \<and>
      positions seen = [0..<length xs] \<and>
      s' a = Some (map (\<lambda>j. f (of_nat j)) [0..<length xs]) \<and>
      (\<forall>j < length xs. load s' \<lparr>cont = a, pos = j\<rparr> = Some (f (of_nat j)))) \<and>
    (\<exists>s1 seen0.
      range_for (\<lambda>i v. Some (ucast i)) s0 (enumerate_mutable a0) = Some (s1, seen0) \<and>
      (\<forall>e \<in> {enumerate_const a0, enumerate_mutable a0}.
         range_for (\<lambda>i v. None) s1 e =
           Some (s1, [(0, 0), (1, 1), (2, 2), (3, 3), (4, 4),
                      (5, 5), (6, 6), (7, 7), (8, 8), (9, 9)])))"
proof (intro conjI)
  let ?ys = "map (\<lambda>j. f (of_nat j)) [0..<length xs]"
  let ?seen = "map (\<lambda>j. (of_nat j :: size_t, xs ! j)) [0..<length xs]"
  have run: "range_for (\<lambda>i v. Some (f i)) s (enumerate_mutable a) = Some (s(a \<mapsto> ?ys), ?seen)"
    using assms(1) container_enumerate_mutable by (rule range_for_write)
  have ps: "positions ?seen = [0..<length xs]"
    using assms(2) by (rule positions_upt)
  have ld: "load (s(a \<mapsto> ?ys)) \<lparr>cont = a, pos = j\<rparr> = Some (f (of_nat j))"
    if "j < length xs" for j
    using that by (simp add: load_def)
  from run ps ld show "\<exists>s' seen.
      range_for (\<lambda>i v. Some (f i)) s (enumerate_mutable a) = Some (s', seen) \<and>
      positions seen = [0..<length xs] \<and>
      s' a = Some (map (\<lambda>j. f (of_nat j)) [0..<length xs]) \<and>
      (\<forall>j < length xs. load s' \<lparr>cont = a, pos = j\<rparr> = Some (f (of_nat j)))"
    by simp
next
  let ?zs = "[0, 1, 2, 3, 4, 5, 6, 7, 8, 9 :: 32 word]"
  let ?s1 = "s0(a0 \<mapsto> ?zs)"
  let ?pairs = "[(0, 0), (1, 1), (2, 2), (3, 3), (4, 4),
                 (5, 5), (6, 6), (7, 7), (8, 8), (9, 9)] :: (size_t \<times> 32 word) list"
  have "range_for (\<lambda>i v. Some (ucast i)) s0 (enumerate_mutable a0) =
      Some (s0(a0 \<mapsto> map (\<lambda>j. ucast (of_nat j :: size_t)) [0..<length (replicate 10 (0 :: 32 word))]),
            map (\<lambda>j. (of_nat j, replicate 10 0 ! j)) [0..<length (replicate 10 (0 :: 32 word))])"
    using assms(3) container_enumerate_mutable by (rule range_for_write)
  then have w: "range_for (\<lambda>i v. Some (ucast i)) s0 (enumerate_mutable a0) =
      Some (?s1, map (\<lambda>j. (of_nat j, replicate 10 0 ! j)) [0..<10])"
    by (simp only: length_replicate assigned_index_list)
  have r: "range_for (\<lambda>i v. None) ?s1 e = Some (?s1, ?pairs)" if e: "container e = a0" for e
  proof -
    have "?s1 a0 = Some ?zs" by simp
    then have "range_for (\<lambda>i v. None) ?s1 e =
        Some (?s1, map (\<lambda>j. (of_nat j, ?zs ! j)) [0..<length ?zs])"
      using e by (rule range_for_read)
    moreover have "length ?zs = 10" by simp
    ultimately show ?thesis
      by (simp only: seen_index_list)
  qed
  have "\<forall>e \<in> {enumerate_const a0, enumerate_mutable a0}.
      range_for (\<lambda>i v. None) ?s1 e = Some (?s1, ?pairs)"
    by (simp add: r container_enumerate_const container_enumerate_mutable)
  with w show "\<exists>s1 seen0.
      range_for (\<lambda>i v. Some (ucast i)) s0 (enumerate_mutable a0) = Some (s1, seen0) \<and>
      (\<forall>e \<in> {enumerate_const a0, enumerate_mutable a0}.
         range_for (\<lambda>i v. None) s1 e =
           Some (s1, [(0, 0), (1, 1), (2, 2), (3, 3), (4, 4),
                      (5, 5), (6, 6), (7, 7), (8, 8), (9, 9)]))"
    by blast
qed

theorem enumerate_mutable_write_then_read_witness:
  "[0 \<mapsto> [5, 5, 5 :: int]] 0 = Some [5, 5, 5] \<and> length [5, 5, 5 :: int] < 2 ^ 64 \<and>
   [0 \<mapsto> replicate 10 (0 :: 32 word)] 0 = Some (replicate 10 0) \<and>
   (\<exists>s' seen.
      range_for (\<lambda>i v. Some (int (unat i) + 40)) [0 \<mapsto> [5, 5, 5 :: int]] (enumerate_mutable 0)
        = Some (s', seen) \<and>
      positions seen = [0..<length [5, 5, 5 :: int]] \<and>
      s' 0 = Some (map (\<lambda>j. int (unat (of_nat j :: size_t)) + 40) [0..<length [5, 5, 5 :: int]]) \<and>
      (\<forall>j < length [5, 5, 5 :: int].
         load s' \<lparr>cont = 0, pos = j\<rparr> = Some (int (unat (of_nat j :: size_t)) + 40))) \<and>
   (\<exists>s1 seen0.
      range_for (\<lambda>i v. Some (ucast i)) [0 \<mapsto> replicate 10 (0 :: 32 word)] (enumerate_mutable 0)
        = Some (s1, seen0) \<and>
      range_for (\<lambda>i v. None) s1 (enumerate_const 0) =
        Some (s1, [(0, 0), (1, 1), (2, 2), (3, 3), (4, 4),
                   (5, 5), (6, 6), (7, 7), (8, 8), (9, 9)]) \<and>
      range_for (\<lambda>i v. None) s1 (enumerate_mutable 0) =
        Some (s1, [(0, 0), (1, 1), (2, 2), (3, 3), (4, 4),
                   (5, 5), (6, 6), (7, 7), (8, 8), (9, 9)]))"
  using enumerate_mutable_write_then_read
    [of "[0 \<mapsto> [5, 5, 5 :: int]]" 0 "[5, 5, 5]" "[0 \<mapsto> replicate 10 (0 :: 32 word)]" 0
        "\<lambda>i. int (unat i) + 40"]
  by simp

section \<open>The iterator and its result\<close>

text \<open>
  A result has two components. The first, reached by \<^verbatim>\<open>get<0>\<close>, is the field \<^verbatim>\<open>index\<close>;
  the second, reached by \<^verbatim>\<open>get<1>\<close>, is the element the field \<^verbatim>\<open>value\<close> points at. Whether
  a caller may assign to what a structured binding names is decided by the types of
  \<^verbatim>\<open>std::tuple_element\<close> and of the container's iterators when the program is compiled; it
  is not a property of what these functions compute.
\<close>

lemma result_access_paths_agree:
  "tuple_size = 2 \<and>
   get_0 r = index r \<and>
   get_1 s r = container_iterator_deref s (value_it r) \<and>
   get_0 (EnumeratedIteratorResult_ctor i v) = i \<and>
   get_1 s (EnumeratedIteratorResult_ctor i v) = container_iterator_deref s v"
  by (simp add: tuple_size_def get_0_def get_1_def EnumeratedIteratorResult_ctor_def)

text \<open>
  C5. \<^verbatim>\<open>operator==\<close> holds exactly when the two container iterators are equal, and
  \<^verbatim>\<open>operator!=\<close> exactly when they are not. The indices are not looked at: two iterators
  constructed on the same container iterator are equal whatever their indices, and
  replacing the index of either operand never changes the answer.
\<close>

theorem Iterator_eq_container_cursors_only:
  "(Iterator_eq it other \<longleftrightarrow> containerIt it = containerIt other) \<and>
   (Iterator_neq it other \<longleftrightarrow> containerIt it \<noteq> containerIt other) \<and>
   Iterator_eq (Iterator_ctor c i) (Iterator_ctor c j) \<and>
   Iterator_eq (it\<lparr>Iterator_index := i\<rparr>) (other\<lparr>Iterator_index := j\<rparr>) = Iterator_eq it other"
  by (simp add: Iterator_eq_def Iterator_neq_def Iterator_ctor_def)

text \<open>
  C6. On an empty container, for either entry function (any \<^verbatim>\<open>Enumerator\<close> on it),
  \<^verbatim>\<open>begin()\<close> and \<^verbatim>\<open>end()\<close> are equal before any increment, and the loop, whatever its
  body, returns without having yielded a pair and leaves the store as it was.
\<close>

theorem empty_container_yields_nothing:
  assumes "s a = Some []" and "container e = a"
  shows "\<exists>b en. Enumerator_begin s e = Some b \<and> Enumerator_end s e = Some en \<and>
    Iterator_eq b en \<and> \<not> Iterator_neq b en \<and> range_for body s e = Some (s, [])"
proof -
  have b: "Enumerator_begin s e = Some (cursor_at a 0)"
    using assms by (rule Enumerator_begin_bound)
  have en: "Enumerator_end s e = Some (cursor_at a 0)"
    using Enumerator_end_bound [where xs = "[]" and s = s and a = a and e = e] assms by simp
  have eq: "Iterator_eq (cursor_at a 0) (cursor_at a 0)"
    by (simp add: Iterator_eq_def)
  have "range_for body s e = Some (s, [])"
    using assms by (simp add: range_for_bound [where xs = "[]" and a = a] fun_upd_idem)
  with b en eq show ?thesis
    by (simp add: Iterator_neq_def)
qed

theorem empty_container_yields_nothing_witness:
  "[3 \<mapsto> ([] :: int list)] 3 = Some [] \<and> container (enumerate_mutable 3) = 3 \<and>
   (\<exists>b en. Enumerator_begin [3 \<mapsto> ([] :: int list)] (enumerate_mutable 3) = Some b \<and>
      Enumerator_end [3 \<mapsto> ([] :: int list)] (enumerate_mutable 3) = Some en \<and>
      Iterator_eq b en \<and> \<not> Iterator_neq b en \<and>
      range_for (\<lambda>i v. Some (v + 1)) [3 \<mapsto> ([] :: int list)] (enumerate_mutable 3)
        = Some ([3 \<mapsto> []], []))"
  using empty_container_yields_nothing
    [of "[3 \<mapsto> ([] :: int list)]" 3 "enumerate_mutable 3" "\<lambda>i v. Some (v + 1)"]
  by (simp add: container_enumerate_mutable)

text \<open>
  C7. \<^verbatim>\<open>begin()\<close> is the iterator on the container's \<^verbatim>\<open>begin()\<close> with index 0, \<^verbatim>\<open>end()\<close> the
  iterator on the container's \<^verbatim>\<open>end()\<close> with the container's \<^verbatim>\<open>size()\<close> as index (the number
  of elements, as a \<^verbatim>\<open>size_t\<close>); and what is observed through \<^verbatim>\<open>*begin()\<close> of a container
  that is not empty, with no increment before, is position 0 and the first element.
\<close>

theorem begin_end_cursors:
  assumes "s a = Some xs" and "container e = a"
  shows "\<exists>b en. Enumerator_begin s e = Some b \<and> Enumerator_end s e = Some en \<and>
    container_begin s a = Some (containerIt b) \<and> pos (containerIt b) = 0 \<and>
    Iterator_index b = 0 \<and>
    container_end s a = Some (containerIt en) \<and> pos (containerIt en) = length xs \<and>
    container_size s a = Some (Iterator_index en) \<and>
    (length xs < 2 ^ 64 \<longrightarrow> unat (Iterator_index en) = length xs) \<and>
    (xs \<noteq> [] \<longrightarrow> observe s (fst (Iterator_deref b)) = (0, Some (hd xs)))"
proof -
  have b: "Enumerator_begin s e = Some (cursor_at a 0)"
    using assms by (rule Enumerator_begin_bound)
  have en: "Enumerator_end s e = Some (cursor_at a (length xs))"
    using assms by (rule Enumerator_end_bound)
  have sz: "length xs < 2 ^ 64 \<longrightarrow> unat (of_nat (length xs) :: size_t) = length xs"
    by (simp add: unat_of_nat)
  have ob: "observe s (fst (Iterator_deref (cursor_at a 0))) = (0, Some (hd xs))" if "xs \<noteq> []"
    using that assms(1)
    by (simp add: observe_def Iterator_deref_def cursor_at_def Iterator_ctor_def get_0_def get_1_def
        EnumeratedIteratorResult_ctor_def container_iterator_deref_def dereferenceable_def
        load_def hd_conv_nth)
  from b en sz ob assms(1) show ?thesis
    by (simp add: cursor_at_def Iterator_ctor_def container_begin_def container_end_def
        container_size_def)
qed

theorem begin_end_cursors_witness:
  "[0 \<mapsto> [7, 8, 9 :: int]] 0 = Some [7, 8, 9] \<and> container (enumerate_const 0) = 0 \<and>
   (\<exists>b en. Enumerator_begin [0 \<mapsto> [7, 8, 9 :: int]] (enumerate_const 0) = Some b \<and>
      Enumerator_end [0 \<mapsto> [7, 8, 9 :: int]] (enumerate_const 0) = Some en \<and>
      container_begin [0 \<mapsto> [7, 8, 9 :: int]] 0 = Some (containerIt b) \<and>
      pos (containerIt b) = 0 \<and> Iterator_index b = 0 \<and>
      container_end [0 \<mapsto> [7, 8, 9 :: int]] 0 = Some (containerIt en) \<and>
      pos (containerIt en) = length [7, 8, 9 :: int] \<and>
      container_size [0 \<mapsto> [7, 8, 9 :: int]] 0 = Some (Iterator_index en) \<and>
      unat (Iterator_index en) = length [7, 8, 9 :: int] \<and>
      observe [0 \<mapsto> [7, 8, 9 :: int]] (fst (Iterator_deref b)) = (0, Some 7))"
  using begin_end_cursors [of "[0 \<mapsto> [7, 8, 9 :: int]]" 0 "[7, 8, 9]" "enumerate_const 0"]
  by (simp add: container_enumerate_const)

text \<open>
  C8. Two calls of \<^verbatim>\<open>operator*\<close> in a row yield the same result and the same observation of
  position and element, and leave the iterator as it was. For an iterator at an element
  (in sync, on a dereferenceable container iterator) both observations are the iterator's
  index and the element it points at.
\<close>

theorem current_idempotent:
  "(case Iterator_deref it of (r1, it1) \<Rightarrow>
      case Iterator_deref it1 of (r2, it2) \<Rightarrow>
        observe s r1 = observe s r2 \<and> r1 = r2 \<and> it1 = it \<and> it2 = it) \<and>
   (in_sync it \<and> dereferenceable s (containerIt it) \<longrightarrow>
      (\<exists>v. load s (containerIt it) = Some v \<and>
        observe s (fst (Iterator_deref it)) = (Iterator_index it, Some v) \<and>
        observe s (fst (Iterator_deref (snd (Iterator_deref it)))) = (Iterator_index it, Some v)))"
  by (auto simp: Iterator_deref_def observe_def in_sync_def get_0_def get_1_def
      container_iterator_deref_def dereferenceable_def load_def split: option.splits)

theorem current_idempotent_witness:
  "in_sync (cursor_at 0 1) \<and>
   dereferenceable [0 \<mapsto> [7, 8, 9 :: int]] (containerIt (cursor_at 0 1)) \<and>
   observe [0 \<mapsto> [7, 8, 9 :: int]] (fst (Iterator_deref (cursor_at 0 1))) = (1, Some 8) \<and>
   observe [0 \<mapsto> [7, 8, 9 :: int]]
     (fst (Iterator_deref (snd (Iterator_deref (cursor_at 0 1))))) = (1, Some 8)"
  using current_idempotent [where it = "cursor_at 0 1" and s = "[0 \<mapsto> [7, 8, 9 :: int]]"]
  by (simp add: in_sync_def cursor_at_def Iterator_ctor_def EnumeratedIteratorResult_ctor_def
      dereferenceable_def load_def)

section \<open>The embedded result, refreshed in place\<close>

text \<open>
  The second translation computes what the first does, and on top of it says where the
  result is.
\<close>

lemma Iterator_of_ctor:
  "Iterator_object_ctor rs c i = (it, rs') \<Longrightarrow>
     Iterator_of rs' it = Some (Iterator_ctor c i) \<and> enumeratedValue_at it = length rs \<and>
     rs' = rs @ [EnumeratedIteratorResult_ctor i c]"
  by (auto simp: Iterator_object_ctor_def new_result_def Iterator_of_def result_at_def
      Iterator_ctor_def)

lemma Iterator_object_inc_in_place:
  assumes "Iterator_object_inc s rs it = Some (it', rs')"
  shows "enumeratedValue_at it' = enumeratedValue_at it"
    and "length rs' = length rs"
    and "q \<noteq> enumeratedValue_at it \<Longrightarrow> result_at rs' q = result_at rs q"
    and "result_at rs' (enumeratedValue_at it) =
      Some \<lparr>index = object_index it', value_it = object_containerIt it'\<rparr>"
    and "object_index it' = object_index it + 1"
    and "container_iterator_inc s (object_containerIt it) = Some (object_containerIt it')"
  using assms
  by (auto simp: Iterator_object_inc_def Let_def result_at_def
      split: option.splits if_splits)

lemma Iterator_object_inc_refines:
  assumes "Iterator_of rs it = Some v"
  shows "(case Iterator_object_inc s rs it of
            None \<Rightarrow> Iterator_inc s v = None
          | Some (it', rs') \<Rightarrow> Iterator_of rs' it' = Iterator_inc s v \<and> Iterator_inc s v \<noteq> None)"
  using assms
  by (auto simp: Iterator_object_inc_def Iterator_inc_def Iterator_of_def Let_def result_at_def
      split: option.splits if_splits)

lemma inc_times_in_place:
  "Iterator_object_inc_times n s rs it = Some (it', rs') \<Longrightarrow>
     enumeratedValue_at it' = enumeratedValue_at it \<and> length rs' = length rs"
proof (induction n arbitrary: rs it)
  case 0
  then show ?case by simp
next
  case (Suc n)
  from Suc.prems obtain it1 rs1 where
    one: "Iterator_object_inc s rs it = Some (it1, rs1)" and
    rest: "Iterator_object_inc_times n s rs1 it1 = Some (it', rs')"
    by (auto split: option.splits)
  from Suc.IH [OF rest] Iterator_object_inc_in_place(1,2) [OF one] show ?case by simp
qed


lemma Enumerator_begin_object_refines:
  "Enumerator_begin_object s rs e = Some (b, rsb) \<Longrightarrow>
     \<exists>v. Enumerator_begin s e = Some v \<and> Iterator_of rsb b = Some v \<and> in_sync v \<and>
       enumeratedValue_at b = length rs \<and> length rsb = Suc (length rs)"
  by (auto simp: Enumerator_begin_object_def Enumerator_begin_def in_sync_def Iterator_ctor_def
      EnumeratedIteratorResult_ctor_def
      dest!: Iterator_of_ctor split: option.splits)

lemma Enumerator_end_object_refines:
  "Enumerator_end_object s rs e = Some (en, rse) \<Longrightarrow>
     \<exists>v. Enumerator_end s e = Some v \<and> Iterator_of rse en = Some v \<and> in_sync v \<and>
       enumeratedValue_at en = length rs \<and> length rse = Suc (length rs)"
  by (auto simp: Enumerator_end_object_def Enumerator_end_def in_sync_def Iterator_ctor_def
      EnumeratedIteratorResult_ctor_def
      dest!: Iterator_of_ctor split: option.splits)

lemma Iterator_inc_in_sync:
  "Iterator_inc s w = Some w' \<Longrightarrow>
     in_sync w' \<and> Iterator_index w' = Iterator_index w + 1 \<and>
     container_iterator_inc s (containerIt w) = Some (containerIt w')"
  by (auto simp: Iterator_inc_def Let_def in_sync_def split: option.splits)

lemma Iterator_object_inc_total:
  assumes "Iterator_of rs it = Some v" and "dereferenceable s (containerIt v)"
  shows "\<exists>it' rs' v'. Iterator_object_inc s rs it = Some (it', rs') \<and>
     Iterator_inc s v = Some v' \<and> Iterator_of rs' it' = Some v' \<and> in_sync v'"
proof -
  from assms obtain v' where v': "Iterator_inc s v = Some v'"
    by (auto simp: Iterator_inc_def container_iterator_inc_def Let_def)
  with Iterator_object_inc_refines [OF assms(1), of s]
  obtain it' rs' where "Iterator_object_inc s rs it = Some (it', rs')"
    and "Iterator_of rs' it' = Some v'"
    by (auto split: option.splits)
  with v' Iterator_inc_in_sync [OF v'] show ?thesis by blast
qed

lemma Iterator_object_post_inc_in_place:
  assumes "Iterator_object_post_inc s rs it = Some (tmp, itp, rsp)"
  shows "enumeratedValue_at itp = enumeratedValue_at it"
    and "enumeratedValue_at tmp = length rs"
    and "length rsp = Suc (length rs)"
    and "result_at rsp (enumeratedValue_at tmp) = result_at rs (enumeratedValue_at it)"
    and "result_at rsp (enumeratedValue_at itp) =
      Some \<lparr>index = object_index itp, value_it = object_containerIt itp\<rparr>"
    and "enumeratedValue_at tmp \<noteq> enumeratedValue_at it"
proof -
  from assms obtain r rs1 where
    cp: "result_at rs (enumeratedValue_at it) = Some r"
      "tmp = it\<lparr>enumeratedValue_at := length rs\<rparr>" "rs1 = rs @ [r]" and
    inc: "Iterator_object_inc s rs1 it = Some (itp, rsp)"
    by (auto simp: Iterator_object_post_inc_def Iterator_object_copy_def split: option.splits)
  note ip = Iterator_object_inc_in_place [OF inc]
  show "enumeratedValue_at itp = enumeratedValue_at it" by (rule ip(1))
  show "enumeratedValue_at tmp = length rs" using cp by simp
  show "length rsp = Suc (length rs)" using ip(2) cp by simp
  have old: "enumeratedValue_at it < length rs"
    using cp(1) by (simp add: result_at_def split: if_splits)
  then have "length rs \<noteq> enumeratedValue_at it" by simp
  from ip(3) [OF this] cp show
    "result_at rsp (enumeratedValue_at tmp) = result_at rs (enumeratedValue_at it)"
    by (simp add: result_at_def)
  show "result_at rsp (enumeratedValue_at itp) =
      Some \<lparr>index = object_index itp, value_it = object_containerIt itp\<rparr>"
    using ip(4) ip(1) by simp
  show "enumeratedValue_at tmp \<noteq> enumeratedValue_at it"
    using old cp by simp
qed

lemma Iterator_inc_total:
  "dereferenceable s (containerIt w) \<Longrightarrow> \<exists>w'. Iterator_inc s w = Some w'"
  by (simp add: Iterator_inc_def container_iterator_inc_def Let_def)

lemma Enumerator_begin_object_None:
  "Enumerator_begin_object s rs e = None \<Longrightarrow> Enumerator_begin s e = None"
  by (simp add: Enumerator_begin_object_def Enumerator_begin_def split: option.splits)

lemma Enumerator_end_object_None:
  "Enumerator_end_object s rs e = None \<Longrightarrow> Enumerator_end s e = None"
  by (simp add: Enumerator_end_object_def Enumerator_end_def split: option.splits)

lemma begin_end_in_sync:
  "(Enumerator_begin s e = Some vb \<longrightarrow> in_sync vb) \<and>
   (Enumerator_end s e = Some ve \<longrightarrow> in_sync ve)"
  by (auto simp: Enumerator_begin_def Enumerator_end_def in_sync_def Iterator_ctor_def
      EnumeratedIteratorResult_ctor_def split: option.splits)

text \<open>
  C10. After construction, so after \<^verbatim>\<open>begin()\<close> and \<^verbatim>\<open>end()\<close>, the embedded result is in sync
  with its iterator: its position is the iterator's index and its handle the iterator's
  container iterator. After \<^verbatim>\<open>operator++()\<close>, from whatever state, it is in sync again, and
  it is the same object: the reference \<^verbatim>\<open>operator*\<close> returns is the one it returned before,
  no result has been created (the store of results has the cells it had, and every other
  cell its content), and read through that reference the result shows the new index and
  the new container iterator. The same holds over any number of increments. After the
  postfix \<^verbatim>\<open>operator++(int)\<close> the iterator's result is likewise the same object, in sync; the
  copy returned has a result of its own, another object, which keeps the content from
  before the increment. Constructing an iterator constructs its one result. An increment
  of an iterator at an element returns.
\<close>

theorem embedded_result_refreshed_in_place:
  "(case Iterator_object_ctor rs c i of
      (it0, rs0) \<Rightarrow>
        Iterator_of rs0 it0 = Some (Iterator_ctor c i) \<and> in_sync (Iterator_ctor c i) \<and>
        enumeratedValue_at it0 = length rs \<and> length rs0 = Suc (length rs)) \<and>
   (case Enumerator_begin_object s rs e of
      None \<Rightarrow> Enumerator_begin s e = None
    | Some (b, rsb) \<Rightarrow>
        (\<exists>v. Enumerator_begin s e = Some v \<and> Iterator_of rsb b = Some v \<and> in_sync v)) \<and>
   (case Enumerator_end_object s rs e of
      None \<Rightarrow> Enumerator_end s e = None
    | Some (en, rse) \<Rightarrow>
        (\<exists>v. Enumerator_end s e = Some v \<and> Iterator_of rse en = Some v \<and> in_sync v)) \<and>
   (Iterator_object_inc s rs it = Some (it', rs') \<longrightarrow>
      fst (Iterator_object_deref it') = fst (Iterator_object_deref it) \<and>
      length rs' = length rs \<and>
      (\<forall>q. q \<noteq> fst (Iterator_object_deref it) \<longrightarrow> result_at rs' q = result_at rs q) \<and>
      result_at rs' (fst (Iterator_object_deref it)) =
        Some \<lparr>index = object_index it', value_it = object_containerIt it'\<rparr> \<and>
      object_index it' = object_index it + 1 \<and>
      container_iterator_inc s (object_containerIt it) = Some (object_containerIt it')) \<and>
   (Iterator_of rs it = Some v \<and> dereferenceable s (containerIt v) \<longrightarrow>
      (\<exists>it1 rs1 v1. Iterator_object_inc s rs it = Some (it1, rs1) \<and>
         Iterator_inc s v = Some v1 \<and> Iterator_of rs1 it1 = Some v1 \<and> in_sync v1)) \<and>
   (Iterator_object_inc_times n s rs it = Some (itn, rsn) \<longrightarrow>
      fst (Iterator_object_deref itn) = fst (Iterator_object_deref it) \<and>
      length rsn = length rs) \<and>
   (Iterator_object_post_inc s rs it = Some (tmp, itp, rsp) \<longrightarrow>
      fst (Iterator_object_deref itp) = fst (Iterator_object_deref it) \<and>
      fst (Iterator_object_deref tmp) \<noteq> fst (Iterator_object_deref it) \<and>
      result_at rsp (fst (Iterator_object_deref tmp)) =
        result_at rs (fst (Iterator_object_deref it)) \<and>
      result_at rsp (fst (Iterator_object_deref itp)) =
        Some \<lparr>index = object_index itp, value_it = object_containerIt itp\<rparr>) \<and>
   (Enumerator_begin s e = Some vb \<longrightarrow> in_sync vb) \<and>
   (Enumerator_end s e = Some ve \<longrightarrow> in_sync ve) \<and>
   (dereferenceable s (containerIt w) \<longrightarrow> (\<exists>w1. Iterator_inc s w = Some w1)) \<and>
   (Iterator_inc s w = Some w' \<longrightarrow>
      in_sync w' \<and> Iterator_index w' = Iterator_index w + 1 \<and>
      container_iterator_inc s (containerIt w) = Some (containerIt w')) \<and>
   (Iterator_post_inc s w = Some (wtmp, w') \<longrightarrow> wtmp = w \<and> in_sync w')"
proof (intro conjI impI)
  show "case Iterator_object_ctor rs c i of
      (it0, rs0) \<Rightarrow>
        Iterator_of rs0 it0 = Some (Iterator_ctor c i) \<and> in_sync (Iterator_ctor c i) \<and>
        enumeratedValue_at it0 = length rs \<and> length rs0 = Suc (length rs)"
    by (auto simp: in_sync_def Iterator_ctor_def EnumeratedIteratorResult_ctor_def
        dest!: Iterator_of_ctor split: prod.splits)
next
  show "case Enumerator_begin_object s rs e of
      None \<Rightarrow> Enumerator_begin s e = None
    | Some (b, rsb) \<Rightarrow>
        (\<exists>v. Enumerator_begin s e = Some v \<and> Iterator_of rsb b = Some v \<and> in_sync v)"
  proof (cases "Enumerator_begin_object s rs e")
    case None
    then show ?thesis by (simp add: Enumerator_begin_object_None)
  next
    case (Some p)
    obtain b rsb where p: "p = (b, rsb)" by (cases p)
    from Enumerator_begin_object_refines [OF Some [unfolded p]] Some p show ?thesis
      by auto
  qed
next
  show "case Enumerator_end_object s rs e of
      None \<Rightarrow> Enumerator_end s e = None
    | Some (en, rse) \<Rightarrow>
        (\<exists>v. Enumerator_end s e = Some v \<and> Iterator_of rse en = Some v \<and> in_sync v)"
  proof (cases "Enumerator_end_object s rs e")
    case None
    then show ?thesis by (simp add: Enumerator_end_object_None)
  next
    case (Some p)
    obtain en rse where p: "p = (en, rse)" by (cases p)
    from Enumerator_end_object_refines [OF Some [unfolded p]] Some p show ?thesis
      by auto
  qed
next
  assume inc: "Iterator_object_inc s rs it = Some (it', rs')"
  note ip = Iterator_object_inc_in_place [OF inc]
  show "fst (Iterator_object_deref it') = fst (Iterator_object_deref it)"
    using ip(1) by (simp add: Iterator_object_deref_def)
  show "length rs' = length rs" by (rule ip(2))
  show "\<forall>q. q \<noteq> fst (Iterator_object_deref it) \<longrightarrow> result_at rs' q = result_at rs q"
    using ip(3) by (simp add: Iterator_object_deref_def)
  show "result_at rs' (fst (Iterator_object_deref it)) =
      Some \<lparr>index = object_index it', value_it = object_containerIt it'\<rparr>"
    using ip(4) by (simp add: Iterator_object_deref_def)
  show "object_index it' = object_index it + 1" by (rule ip(5))
  show "container_iterator_inc s (object_containerIt it) = Some (object_containerIt it')"
    by (rule ip(6))
next
  assume "Iterator_of rs it = Some v \<and> dereferenceable s (containerIt v)"
  then show "\<exists>it1 rs1 v1. Iterator_object_inc s rs it = Some (it1, rs1) \<and>
      Iterator_inc s v = Some v1 \<and> Iterator_of rs1 it1 = Some v1 \<and> in_sync v1"
    using Iterator_object_inc_total by blast
next
  assume n: "Iterator_object_inc_times n s rs it = Some (itn, rsn)"
  from inc_times_in_place [OF n]
  show "fst (Iterator_object_deref itn) = fst (Iterator_object_deref it)"
    and "length rsn = length rs"
    by (simp_all add: Iterator_object_deref_def)
next
  assume p: "Iterator_object_post_inc s rs it = Some (tmp, itp, rsp)"
  note pp = Iterator_object_post_inc_in_place [OF p]
  show "fst (Iterator_object_deref itp) = fst (Iterator_object_deref it)"
    using pp(1) by (simp add: Iterator_object_deref_def)
  show "fst (Iterator_object_deref tmp) \<noteq> fst (Iterator_object_deref it)"
    using pp(6) by (simp add: Iterator_object_deref_def)
  show "result_at rsp (fst (Iterator_object_deref tmp)) =
      result_at rs (fst (Iterator_object_deref it))"
    using pp(4) by (simp add: Iterator_object_deref_def)
  show "result_at rsp (fst (Iterator_object_deref itp)) =
      Some \<lparr>index = object_index itp, value_it = object_containerIt itp\<rparr>"
    using pp(5) by (simp add: Iterator_object_deref_def)
next
  assume "Enumerator_begin s e = Some vb"
  then show "in_sync vb" using begin_end_in_sync by blast
next
  assume "Enumerator_end s e = Some ve"
  then show "in_sync ve" using begin_end_in_sync by blast
next
  assume "dereferenceable s (containerIt w)"
  then show "\<exists>w1. Iterator_inc s w = Some w1" by (rule Iterator_inc_total)
next
  assume w: "Iterator_inc s w = Some w'"
  from Iterator_inc_in_sync [OF w]
  show "in_sync w'" and "Iterator_index w' = Iterator_index w + 1"
    and "container_iterator_inc s (containerIt w) = Some (containerIt w')"
    by simp_all
next
  assume "Iterator_post_inc s w = Some (wtmp, w')"
  then have "wtmp = w \<and> Iterator_inc s w = Some w'"
    by (auto simp: Iterator_post_inc_def Let_def split: option.splits)
  then show "wtmp = w" and "in_sync w'"
    using Iterator_inc_in_sync by blast+
qed

text \<open>
  On the container \<open>[7, 8, 9]\<close> at address 0, with one result in the store, the embedded
  result (at address 0) of an iterator at the first element: \<^verbatim>\<open>begin()\<close> and \<^verbatim>\<open>end()\<close> each
  construct an iterator with its result at address 1; one and two increments leave the
  iterator's result at address 0 and the store with its one cell, refreshed; the postfix
  increment adds the copy's result at address 1.
\<close>

theorem embedded_result_refreshed_in_place_witness:
  "Enumerator_begin_object [0 \<mapsto> [7, 8, 9 :: int]] [enumeratedValue (cursor_at 0 0)]
       (enumerate_mutable 0) =
     Some (object_at 1 0 0, [enumeratedValue (cursor_at 0 0), enumeratedValue (cursor_at 0 0)]) \<and>
   Enumerator_end_object [0 \<mapsto> [7, 8, 9 :: int]] [enumeratedValue (cursor_at 0 0)]
       (enumerate_mutable 0) =
     Some (object_at 1 0 3, [enumeratedValue (cursor_at 0 0), enumeratedValue (cursor_at 0 3)]) \<and>
   Iterator_object_inc [0 \<mapsto> [7, 8, 9 :: int]] [enumeratedValue (cursor_at 0 0)]
       (object_at 0 0 0) =
     Some (object_at 0 0 1, [enumeratedValue (cursor_at 0 1)]) \<and>
   fst (Iterator_object_deref (object_at 0 0 1)) = fst (Iterator_object_deref (object_at 0 0 0)) \<and>
   result_at [enumeratedValue (cursor_at 0 1)] (fst (Iterator_object_deref (object_at 0 0 0))) =
     Some \<lparr>index = 1, value_it = \<lparr>cont = 0, pos = 1\<rparr>\<rparr> \<and>
   Iterator_of [enumeratedValue (cursor_at 0 0)] (object_at 0 0 0) = Some (cursor_at 0 0) \<and>
   dereferenceable [0 \<mapsto> [7, 8, 9 :: int]] (containerIt (cursor_at 0 0)) \<and>
   Iterator_object_inc_times 2 [0 \<mapsto> [7, 8, 9 :: int]] [enumeratedValue (cursor_at 0 0)]
       (object_at 0 0 0) =
     Some (object_at 0 0 2, [enumeratedValue (cursor_at 0 2)]) \<and>
   Iterator_object_post_inc [0 \<mapsto> [7, 8, 9 :: int]] [enumeratedValue (cursor_at 0 0)]
       (object_at 0 0 0) =
     Some (object_at 1 0 0, object_at 0 0 1,
           [enumeratedValue (cursor_at 0 1), enumeratedValue (cursor_at 0 0)]) \<and>
   fst (Iterator_object_deref (object_at 1 0 0)) \<noteq> fst (Iterator_object_deref (object_at 0 0 0)) \<and>
   Enumerator_begin [0 \<mapsto> [7, 8, 9 :: int]] (enumerate_mutable 0) = Some (cursor_at 0 0) \<and>
   in_sync (cursor_at 0 0) \<and>
   Enumerator_end [0 \<mapsto> [7, 8, 9 :: int]] (enumerate_mutable 0) = Some (cursor_at 0 3) \<and>
   in_sync (cursor_at 0 3) \<and>
   dereferenceable [0 \<mapsto> [7, 8, 9 :: int]] (containerIt (cursor_at 0 1)) \<and>
   Iterator_inc [0 \<mapsto> [7, 8, 9 :: int]] (cursor_at 0 1) = Some (cursor_at 0 2) \<and>
   in_sync (cursor_at 0 2) \<and>
   Iterator_post_inc [0 \<mapsto> [7, 8, 9 :: int]] (cursor_at 0 1)
     = Some (cursor_at 0 1, cursor_at 0 2)"
  using embedded_result_refreshed_in_place
    [where s = "[0 \<mapsto> [7, 8, 9 :: int]]" and rs = "[enumeratedValue (cursor_at 0 0)]"
       and c = "\<lparr>cont = 0, pos = 0\<rparr>" and i = 0 and e = "enumerate_mutable 0"
       and it = "object_at 0 0 0" and it' = "object_at 0 0 1"
       and rs' = "[enumeratedValue (cursor_at 0 1)]"
       and v = "cursor_at 0 0" and n = 2
       and itn = "object_at 0 0 2" and rsn = "[enumeratedValue (cursor_at 0 2)]"
       and tmp = "object_at 1 0 0" and itp = "object_at 0 0 1"
       and rsp = "[enumeratedValue (cursor_at 0 1), enumeratedValue (cursor_at 0 0)]"
       and vb = "cursor_at 0 0" and ve = "cursor_at 0 3"
       and w = "cursor_at 0 1" and w' = "cursor_at 0 2" and wtmp = "cursor_at 0 1"]
  by (simp add: Iterator_object_ctor_def new_result_def Iterator_object_inc_def
      Iterator_object_copy_def Iterator_object_post_inc_def Iterator_object_deref_def
      Enumerator_begin_object_def Enumerator_end_object_def Iterator_of_def result_at_def
      object_at_def cursor_at_def Iterator_ctor_def EnumeratedIteratorResult_ctor_def
      Enumerator_begin_def Enumerator_end_def enumerate_mutable_def Enumerator_ctor_def
      container_begin_def container_end_def container_size_def dereferenceable_def
      Iterator_inc_def Iterator_post_inc_def container_iterator_inc_def Let_def in_sync_def
      numeral_2_eq_2)

end
